theory Spec2Isabelle
  imports Complex_Main "HOL-Library.Sublist"
begin

section \<open>Python strings\<close>

text \<open>
  A Python \<open>str\<close> is modelled as a \<open>string\<close>: each \<open>char\<close> stands for the code point of
  the same number, so the model covers the texts whose code points are below 256. The
  character classes below are the ones Python's \<open>str\<close> methods and the \<open>re\<close> module use
  on \<open>str\<close> patterns, restricted to that range.
\<close>

definition ord :: "char \<Rightarrow> nat" where
  "ord c = of_char c"

definition chr :: "nat \<Rightarrow> char" where
  "chr n = char_of n"

text \<open>\<open>str.isspace\<close>, also the class \<open>\s\<close>: TAB..CR, FS..US, space, NEL and NBSP.\<close>

definition isspace :: "char \<Rightarrow> bool" where
  "isspace c = (let n = ord c in (9 \<le> n \<and> n \<le> 13) \<or> (28 \<le> n \<and> n \<le> 32) \<or> n = 133 \<or> n = 160)"

text \<open>The class \<open>\d\<close>: the decimal digits; below 256 these are \<open>0\<close>..\<open>9\<close> only.\<close>

definition isdigit :: "char \<Rightarrow> bool" where
  "isdigit c = (let n = ord c in 48 \<le> n \<and> n \<le> 57)"

text \<open>The class \<open>[a-zA-Z]\<close>.\<close>

definition isasciialpha :: "char \<Rightarrow> bool" where
  "isasciialpha c = (let n = ord c in (65 \<le> n \<and> n \<le> 90) \<or> (97 \<le> n \<and> n \<le> 122))"

text \<open>
  The class \<open>\w\<close> of a \<open>str\<close> pattern: the alphanumeric code points and the underscore.
  Above ASCII and below 256 the alphanumeric ones are the ordinal indicators, the micro
  sign, the superscript digits, the vulgar fractions and the letters \<open>0xC0\<close>..\<open>0xFF\<close>
  without the multiplication and division signs.
\<close>

definition isword :: "char \<Rightarrow> bool" where
  "isword c = (let n = ord c in
     isdigit c \<or> isasciialpha c \<or> n = 95 \<or>
     n = 170 \<or> n = 178 \<or> n = 179 \<or> n = 181 \<or> n = 185 \<or> n = 186 \<or>
     n = 188 \<or> n = 189 \<or> n = 190 \<or>
     (192 \<le> n \<and> n \<noteq> 215 \<and> n \<noteq> 247))"

text \<open>\<open>s.strip()\<close> and \<open>s.rstrip(chars)\<close>.\<close>

definition rstrip_chars :: "char set \<Rightarrow> string \<Rightarrow> string" where
  "rstrip_chars cs s = rev (dropWhile (\<lambda>c. c \<in> cs) (rev s))"

definition strip :: "string \<Rightarrow> string" where
  "strip s = rev (dropWhile isspace (rev (dropWhile isspace s)))"

text \<open>
  \<open>s.split()\<close> without a separator: the maximal runs of non-whitespace characters.
  \<open>cur\<close> is the run read so far.
\<close>

fun split_ws_from :: "string \<Rightarrow> string \<Rightarrow> string list" where
  "split_ws_from cur [] = (if cur = [] then [] else [cur])"
| "split_ws_from cur (c # cs) =
     (if isspace c then (if cur = [] then split_ws_from [] cs else cur # split_ws_from [] cs)
      else split_ws_from (cur @ [c]) cs)"

definition split_ws :: "string \<Rightarrow> string list" where
  "split_ws s = split_ws_from [] s"

text \<open>
  \<open>s.split(sep)\<close> for a one-character separator: the pieces between the separators;
  the result always has at least one element.
\<close>

fun split_on_from :: "char \<Rightarrow> string \<Rightarrow> string \<Rightarrow> string list" where
  "split_on_from sep cur [] = [cur]"
| "split_on_from sep cur (c # cs) =
     (if c = sep then cur # split_on_from sep [] cs else split_on_from sep (cur @ [c]) cs)"

definition split_on :: "char \<Rightarrow> string \<Rightarrow> string list" where
  "split_on sep s = split_on_from sep [] s"

text \<open>\<open>str(n)\<close> of an integer, as the f-strings \<open>{year}\<close> and \<open>{len(existing_keys)}\<close> render it.\<close>

definition digit_char :: "nat \<Rightarrow> char" where
  "digit_char d = chr (48 + d)"

fun str_nat :: "nat \<Rightarrow> string" where
  "str_nat n = (if n < 10 then [digit_char n] else str_nat (n div 10) @ [digit_char (n mod 10)])"

definition str_int :: "int \<Rightarrow> string" where
  "str_int i = (if i < 0 then CHR ''-'' # str_nat (nat (- i)) else str_nat (nat i))"

section \<open>The citation key generator (\<open>utils.generate_bibtex_key\<close>)\<close>

text \<open>The first part of the function: the base key from the first author and the year.\<close>

definition base_key :: "string list \<Rightarrow> int \<Rightarrow> string" where
  "base_key authors year =
     (case authors of
        [] \<Rightarrow> ''Unknown'' @ str_int year
      | first_author # _ \<Rightarrow>
          (let last_name =
                 (if CHR '','' \<in> set first_author
                  then strip (hd (split_on (CHR '','') first_author))
                  else (let parts = split_ws first_author
                        in if parts \<noteq> [] then last parts else ''Unknown''));
               last_name = filter isasciialpha last_name
           in last_name @ str_int year))"

text \<open>
  The collision loop. One call is one test of the \<open>while\<close> condition with the current
  \<open>key\<close> and \<open>suffix\<close> (here \<open>sfx\<close>); the \<open>break\<close> leaves with the count-based key.
\<close>

function key_loop :: "string \<Rightarrow> string set \<Rightarrow> string \<Rightarrow> nat \<Rightarrow> string" where
  "key_loop base existing_keys key sfx =
     (if key \<in> existing_keys
      then (let key' = base @ [chr sfx]; sfx' = sfx + 1
            in if sfx' > ord (CHR ''z'')
               then base @ ''_'' @ str_nat (card existing_keys)
               else key_loop base existing_keys key' sfx')
      else key)"
  by pat_completeness auto
termination
  by (relation "measure (\<lambda>(base, existing_keys, key, sfx). 123 - sfx)")
     (auto simp: ord_def)

definition generate_bibtex_key :: "string list \<Rightarrow> int \<Rightarrow> string set \<Rightarrow> string" where
  "generate_bibtex_key authors year existing_keys =
     (let base = base_key authors year
      in key_loop base existing_keys base (ord (CHR ''a'')))"

section \<open>Identifier extractors (\<open>utils.extract_*_from_text\<close>)\<close>

text \<open>
  \<open>re.search(pattern, text)\<close>: the match at the leftmost start position where the
  pattern matches. A pattern is given by the function that matches it at the start of a
  text and returns what the source reads from the match.
\<close>

fun re_search :: "(string \<Rightarrow> 'a option) \<Rightarrow> string \<Rightarrow> 'a option" where
  "re_search m [] = m []"
| "re_search m (c # cs) = (case m (c # cs) of Some x \<Rightarrow> Some x | None \<Rightarrow> re_search m cs)"

text \<open>A literal under \<open>re.IGNORECASE\<close>: below 256 only the ASCII letters have two cases
  that match each other.\<close>

definition lower :: "char \<Rightarrow> char" where
  "lower c = (let n = ord c in if 65 \<le> n \<and> n \<le> 90 then chr (n + 32) else c)"

definition match_literal_ic :: "string \<Rightarrow> string \<Rightarrow> (string \<times> string) option" where
  "match_literal_ic lit s =
     (let t = take (length lit) s
      in if map lower t = map lower lit then Some (t, drop (length lit) s) else None)"

text \<open>
  \<open>10\.\d{4,}/[^\s]+\<close> at the start of \<open>s\<close>. The digits are followed by a slash, which
  is no digit, so the greedy \<open>\d{4,}\<close> is the whole run of digits; \<open>[^\s]+\<close> is the whole
  run of non-whitespace characters after the slash.
\<close>

definition match_doi :: "string \<Rightarrow> string option" where
  "match_doi s =
     (case s of
        a # b # c # r \<Rightarrow>
          if a = CHR ''1'' \<and> b = CHR ''0'' \<and> c = CHR ''.''
          then (let ds = takeWhile isdigit r; r1 = dropWhile isdigit r
                in if 4 \<le> length ds
                   then (case r1 of
                           [] \<Rightarrow> None
                         | sl # r2 \<Rightarrow>
                             if sl = CHR ''/''
                             then (let body = takeWhile (\<lambda>x. \<not> isspace x) r2
                                   in if body \<noteq> [] then Some (''10.'' @ ds @ ''/'' @ body) else None)
                             else None)
                   else None)
          else None
      | _ \<Rightarrow> None)"

text \<open>
  \<open>doi:\s*10\.\d{4,}/[^\s]+\<close> and \<open>DOI:\s*10\.\d{4,}/[^\s]+\<close> at the start of \<open>s\<close>; with
  \<open>re.IGNORECASE\<close> the two are the same pattern.
\<close>

definition match_doi_prefixed :: "string \<Rightarrow> string option" where
  "match_doi_prefixed s =
     (case match_literal_ic ''doi:'' s of
        None \<Rightarrow> None
      | Some (p, r) \<Rightarrow>
          (let ws = takeWhile isspace r
           in case match_doi (dropWhile isspace r) of
                None \<Rightarrow> None
              | Some m \<Rightarrow> Some (p @ ws @ m)))"

definition doi_patterns :: "(string \<Rightarrow> string option) list" where
  "doi_patterns = [match_doi, match_doi_prefixed, match_doi_prefixed]"

text \<open>\<open>re.sub(r'^(doi|DOI):\s*', '', doi)\<close>, without \<open>IGNORECASE\<close>.\<close>

definition strip_doi_prefix :: "string \<Rightarrow> string" where
  "strip_doi_prefix s =
     (if take 4 s = ''doi:'' \<or> take 4 s = ''DOI:'' then dropWhile isspace (drop 4 s) else s)"

fun doi_first_match :: "(string \<Rightarrow> string option) list \<Rightarrow> string \<Rightarrow> string option" where
  "doi_first_match [] text = None"
| "doi_first_match (pattern # rest) text =
     (case re_search pattern text of
        Some m \<Rightarrow> Some (rstrip_chars (set ''.,;:'') (strip_doi_prefix m))
      | None \<Rightarrow> doi_first_match rest text)"

definition extract_doi_from_text :: "string \<Rightarrow> string option" where
  "extract_doi_from_text text = doi_first_match doi_patterns text"










section \<open>Citation records (\<open>metadata_extractor.PaperMetadata\<close>)\<close>

datatype ExtractionMethod = PDF2BIB | CROSSREF | ARXIV | PUBMED | PDF_METADATA | PARSED | MANUAL

record PaperMetadata =
  title :: string
  authors :: "string list"
  year :: int
  bibtex_key :: string
  bibtex_entry :: string
  journal :: "string option"
  volume :: "string option"
  pages :: "string option"
  doi :: "string option"
  url :: "string option"
  abstract :: "string option"
  publisher :: "string option"
  extraction_method :: ExtractionMethod

datatype py_error = ValueError

text \<open>
  \<open>int(s)\<close> of a string: surrounding whitespace is dropped, one sign is allowed, then
  decimal digits, where single underscores may stand between two digits. Anything else
  raises \<open>ValueError\<close>, here \<open>None\<close>. \<open>prev\<close> tells whether the character before was a digit.
\<close>

fun int_digits :: "bool \<Rightarrow> nat \<Rightarrow> string \<Rightarrow> nat option" where
  "int_digits prev acc [] = (if prev then Some acc else None)"
| "int_digits prev acc (c # cs) =
     (if isdigit c then int_digits True (10 * acc + (ord c - 48)) cs
      else if c = CHR ''_'' \<and> prev then int_digits False acc cs
      else None)"

definition py_int :: "string \<Rightarrow> int option" where
  "py_int s =
     (case strip s of
        [] \<Rightarrow> None
      | c # cs \<Rightarrow>
          if c = CHR ''-'' then map_option (\<lambda>n. - int n) (int_digits False 0 cs)
          else if c = CHR ''+'' then map_option int (int_digits False 0 cs)
          else map_option int (int_digits False 0 (c # cs)))"

text \<open>
  A path object, by its \<open>str()\<close> and its final component \<open>name\<close>; \<open>stem\<close> is the name
  without its last suffix, as \<open>pathlib\<close> computes it.
\<close>

record Path =
  path_str :: string
  name :: string

definition stem :: "Path \<Rightarrow> string" where
  "stem p =
     (let n = name p
      in if CHR ''.'' \<in> set n
         then (let i = length n - 1 - length (takeWhile (\<lambda>c. c \<noteq> CHR ''.'') (rev n))
               in if 0 < i \<and> i < length n - 1 then take i n else n)
         else n)"

section \<open>The citation normalizer (\<open>_parse_bibtex_entry\<close>)\<close>

text \<open>
  \<open>pybtex\<close> is a library outside the repository. Its parser is a parameter: it maps the
  text to the entries it reads, in order, or raises (\<open>None\<close>). An entry is given by its
  persons of each role, each as \<open>str(person)\<close> renders it, and by its fields.
\<close>

record bib_entry =
  entry_persons :: "string \<Rightarrow> string list option"
  entry_fields :: "string \<Rightarrow> string option"

type_synonym bibtex_parser = "string \<Rightarrow> bib_entry list option"

text \<open>The dictionary that \<open>_parse_bibtex_entry\<close> returns.\<close>

record parsed_bibtex =
  parsed_title :: string
  parsed_authors :: "string list"
  parsed_year :: int
  parsed_journal :: "string option"
  parsed_volume :: "string option"
  parsed_pages :: "string option"
  parsed_publisher :: "string option"
  parsed_doi :: "string option"

text \<open>\<open>int(fields.get('year', 2024))\<close>.\<close>

definition year_of_fields :: "(string \<Rightarrow> string option) \<Rightarrow> int option" where
  "year_of_fields flds = (case flds ''year'' of None \<Rightarrow> Some 2024 | Some v \<Rightarrow> py_int v)"

text \<open>Every exception inside the \<open>try\<close> block ends in \<open>return None\<close>.\<close>

definition parse_bibtex_entry :: "bibtex_parser \<Rightarrow> string \<Rightarrow> parsed_bibtex option" where
  "parse_bibtex_entry parse_bibtex bibtex_str =
     (case parse_bibtex bibtex_str of
        None \<Rightarrow> None
      | Some entries \<Rightarrow>
          (case entries of
             [] \<Rightarrow> None
           | entry # _ \<Rightarrow>
               (let auths = (case entry_persons entry ''author'' of None \<Rightarrow> [] | Some ps \<Rightarrow> ps);
                    flds = entry_fields entry
                in case year_of_fields flds of
                     None \<Rightarrow> None
                   | Some y \<Rightarrow>
                       Some \<lparr>parsed_title = (case flds ''title'' of None \<Rightarrow> [] | Some t \<Rightarrow> t),
                             parsed_authors = auths,
                             parsed_year = y,
                             parsed_journal = flds ''journal'',
                             parsed_volume = flds ''volume'',
                             parsed_pages = flds ''pages'',
                             parsed_publisher = flds ''publisher'',
                             parsed_doi = flds ''doi''\<rparr>)))"

section \<open>Building and re-keying entries\<close>

fun join :: "string \<Rightarrow> string list \<Rightarrow> string" where
  "join sep [] = []"
| "join sep [x] = x"
| "join sep (x # y # ys) = x @ sep @ join sep (y # ys)"

text \<open>\<open>_create_bibtex_entry\<close>; \<open>kwargs\<close> are the optional fields in the order given.\<close>

definition create_bibtex_entry ::
  "string \<Rightarrow> string \<Rightarrow> string \<Rightarrow> string list \<Rightarrow> int \<Rightarrow> (string \<times> string) list \<Rightarrow> string" where
  "create_bibtex_entry entry_type key ttl auths yr kwargs =
     (let author_str = (if auths \<noteq> [] then join '' and '' auths else ''Unknown'');
          entry_lines =
            [''@'' @ entry_type @ ''{'' @ key @ '','',
             (if ttl \<noteq> [] then ''  title = {'' @ ttl @ ''},'' else ''  title = {Untitled},''),
             (if author_str \<noteq> [] then ''  author = {'' @ author_str @ ''},''
              else ''  author = {Unknown},''),
             ''  year = {'' @ str_int yr @ ''},'']
            @ map (\<lambda>(field, val). ''  '' @ field @ '' = {'' @ val @ ''},'')
                  (filter (\<lambda>(field, val). val \<noteq> []) kwargs)
            @ [''}'']
      in join [CHR 0x0A] entry_lines)"

text \<open>
  The pattern \<open>(@\w+\{)[^,]+,\<close> at the start of \<open>s\<close>: the result is group 1 and the text
  after the match. An opening brace is no word character and a comma is excluded from
  \<open>[^,]\<close>, so both greedy runs are the whole runs.
\<close>

definition match_key_header :: "string \<Rightarrow> (string \<times> string) option" where
  "match_key_header s =
     (case s of
        [] \<Rightarrow> None
      | c0 # r \<Rightarrow>
          if c0 = CHR ''@''
          then (let w = takeWhile isword r
                in if w = [] then None
                   else (case dropWhile isword r of
                           [] \<Rightarrow> None
                         | br # r1 \<Rightarrow>
                             if br = CHR ''{''
                             then (let k = takeWhile (\<lambda>c. c \<noteq> CHR '','') r1
                                   in if k = [] then None
                                      else (case dropWhile (\<lambda>c. c \<noteq> CHR '','') r1 of
                                              [] \<Rightarrow> None
                                            | comma # r2 \<Rightarrow> Some (''@'' @ w @ ''{'', r2)))
                             else None))
          else None)"

text \<open>
  \<open>re.sub(pattern, r'\g<1>' + new_key + ',', bibtex_entry, count=1)\<close>: the leftmost match
  is replaced, a text without a match is returned as it is. The replacement template is
  taken literally, which holds for every key without a backslash, as the generated ones are.
\<close>

fun sub_key_header :: "string \<Rightarrow> string \<Rightarrow> string" where
  "sub_key_header new_key [] = []"
| "sub_key_header new_key (c # cs) =
     (case match_key_header (c # cs) of
        Some (g1, rest) \<Rightarrow> g1 @ new_key @ '','' @ rest
      | None \<Rightarrow> c # sub_key_header new_key cs)"

definition replace_bibtex_key :: "string \<Rightarrow> string \<Rightarrow> string" where
  "replace_bibtex_key entry new_key = sub_key_header new_key entry"

section \<open>The extractor and the world around it\<close>

text \<open>
  The fields of \<open>MetadataExtractor\<close> that the strategies read. Every caller in the
  repository constructs it as \<open>MetadataExtractor(crossref_email=...)\<close>, that is with the
  defaults \<open>max_retries = 3\<close> and \<open>retry_delay = 1.0\<close>.
\<close>

record MetadataExtractor =
  crossref_email :: "string option"
  max_retries :: int
  retry_delay :: real

definition MetadataExtractor_init :: "string option \<Rightarrow> MetadataExtractor" where
  "MetadataExtractor_init email = \<lparr>crossref_email = email, max_retries = 3, retry_delay = 1\<rparr>"

text \<open>
  What the libraries and the network answer. \<open>session_get url n\<close> is the outcome of
  request number \<open>n\<close> (from 0) to \<open>url\<close>: a response with its status code and body, or a
  \<open>requests.RequestException\<close>.
\<close>

datatype http_outcome = Response nat string | RequestException

text \<open>The value \<open>pdf2bib.pdf2bib\<close> returns: one result, results keyed by file path, or
  anything else; a result is the dictionary the source reads with \<open>get\<close>, by its
  keys \<open>identifier\<close>, \<open>identifier_type\<close>, \<open>bibtex\<close> and \<open>url\<close>.\<close>

record pdf2bib_result =
  result_identifier :: "string option"
  result_identifier_type :: "string option"
  result_bibtex :: "string option"
  result_url :: "string option"

datatype pdf2bib_return =
  DirectResult pdf2bib_result
| ResultsByPath "(string \<times> pdf2bib_result) list"
| OtherValue

text \<open>The first \<open>atom:entry\<close> of an arXiv feed: the text of its title, of the name of
  each author, of its publication date and of its summary (\<open>None\<close>: element or text
  missing).\<close>

record atom_entry =
  atom_title :: "string option"
  atom_author_names :: "string option list"
  atom_published :: "string option"
  atom_summary :: "string option"

record world =
  PDF2BIB_AVAILABLE :: bool
  pdf2bib_call :: "string \<Rightarrow> pdf2bib_return option"
  parse_bibtex :: bibtex_parser
  session_get :: "string \<Rightarrow> nat \<Rightarrow> http_outcome"
  parse_atom_feed :: "string \<Rightarrow> atom_entry option option"
  fitz_metadata :: "string \<Rightarrow> (string \<times> string) list option"

text \<open>What a strategy does besides returning: requests and sleeps, in order.\<close>

datatype event = Request nat | Sleep real


section \<open>Lookup strategies\<close>


text \<open>
  \<open>_get_metadata_from_crossref\<close>. \<open>crossref_attempts\<close> is the \<open>for\<close> loop over the attempt
  numbers still to run; the result is the events of the loop and its return value.
\<close>

definition crossref_url :: "string \<Rightarrow> string" where
  "crossref_url d = ''https://api.crossref.org/works/'' @ d @ ''/transform/application/x-bibtex''"

definition crossref_record ::
  "string \<Rightarrow> string \<Rightarrow> parsed_bibtex \<Rightarrow> string set \<Rightarrow> PaperMetadata" where
  "crossref_record d entry0 parsed existing_keys =
     (let key = generate_bibtex_key (parsed_authors parsed) (parsed_year parsed) existing_keys;
          entry1 = replace_bibtex_key entry0 key;
          url_link = ''https://doi.org/'' @ d
      in \<lparr>title = parsed_title parsed,
          authors = parsed_authors parsed,
          year = parsed_year parsed,
          bibtex_key = key,
          bibtex_entry = entry1,
          journal = parsed_journal parsed,
          volume = parsed_volume parsed,
          pages = parsed_pages parsed,
          doi = Some d,
          url = Some url_link,
          abstract = None,
          publisher = parsed_publisher parsed,
          extraction_method = CROSSREF\<rparr>)"

definition then_events :: "event list \<Rightarrow> event list \<times> 'a \<Rightarrow> event list \<times> 'a" where
  "then_events es r = (es @ fst r, snd r)"

fun crossref_attempts ::
  "MetadataExtractor \<Rightarrow> world \<Rightarrow> string \<Rightarrow> string set \<Rightarrow> nat list
     \<Rightarrow> event list \<times> PaperMetadata option" where
  "crossref_attempts self w d existing_keys [] = ([], None)"
| "crossref_attempts self w d existing_keys (attempt # rest) =
     (case session_get w (crossref_url d) attempt of
        Response status_code body \<Rightarrow>
          if status_code = 200
          then (case parse_bibtex_entry (parse_bibtex w) body of
                  Some parsed \<Rightarrow> ([Request attempt], Some (crossref_record d body parsed existing_keys))
                | None \<Rightarrow>
                    then_events [Request attempt] (crossref_attempts self w d existing_keys rest))
          else if status_code = 404 then ([Request attempt], None)
          else then_events [Request attempt] (crossref_attempts self w d existing_keys rest)
      | RequestException \<Rightarrow>
          if int attempt < max_retries self - 1
          then then_events [Request attempt, Sleep (retry_delay self * 2 ^ attempt)]
                 (crossref_attempts self w d existing_keys rest)
          else then_events [Request attempt] (crossref_attempts self w d existing_keys rest))"

definition get_metadata_from_crossref ::
  "MetadataExtractor \<Rightarrow> world \<Rightarrow> string \<Rightarrow> string set \<Rightarrow> event list \<times> PaperMetadata option" where
  "get_metadata_from_crossref self w d existing_keys =
     crossref_attempts self w d existing_keys [0..<nat (max_retries self)]"





text \<open>
  \<open>_parse_metadata_from_text\<close>. First the pattern \<open>\b(19|20)\d{2}\b\<close>: \<open>year_at s\<close> is
  \<open>(19|20)\d{2}\b\<close> at the start of \<open>s\<close>, and the search carries whether the character
  before the current position is a word character, which decides the leading \<open>\b\<close>.
\<close>

fun year_at :: "string \<Rightarrow> bool" where
  "year_at (a # b # c # d # rest) =
     ((a = CHR ''1'' \<and> b = CHR ''9'' \<or> a = CHR ''2'' \<and> b = CHR ''0'') \<and> isdigit c \<and> isdigit d \<and>
      (case rest of [] \<Rightarrow> True | e # _ \<Rightarrow> \<not> isword e))"
| "year_at _ = False"

fun search_year_from :: "bool \<Rightarrow> string \<Rightarrow> string option" where
  "search_year_from prev_word [] = None"
| "search_year_from prev_word (c # cs) =
     (if \<not> prev_word \<and> year_at (c # cs) then Some (take 4 (c # cs))
      else search_year_from (isword c) cs)"

definition search_year :: "string \<Rightarrow> string option" where
  "search_year text = search_year_from False text"

definition parse_metadata_from_text ::
  "string \<Rightarrow> Path \<Rightarrow> string set \<Rightarrow> py_error + PaperMetadata" where
  "parse_metadata_from_text text pdf_path existing_keys =
     (let lines = split_on (CHR 0x0A) text;
          ttl = (case lines of l # _ \<Rightarrow> l | [] \<Rightarrow> stem pdf_path);
          yr = (case search_year text of
                  Some m \<Rightarrow> (case py_int m of Some y \<Rightarrow> Inr y | None \<Rightarrow> Inl ValueError)
                | None \<Rightarrow> Inr 2024)
      in case yr of
           Inl e \<Rightarrow> Inl e
         | Inr y \<Rightarrow>
             (let auths = [''Unknown''];
                  key = generate_bibtex_key auths y existing_keys;
                  entry1 = create_bibtex_entry ''article'' key ttl auths y []
              in Inr \<lparr>title = ttl,
                      authors = auths,
                      year = y,
                      bibtex_key = key,
                      bibtex_entry = entry1,
                      journal = None,
                      volume = None,
                      pages = None,
                      doi = None,
                      url = None,
                      abstract = None,
                      publisher = None,
                      extraction_method = PARSED\<rparr>))"

section \<open>The resolution orchestrator (\<open>extract_metadata\<close>)\<close>








section \<open>Notions of the specification\<close>

text \<open>The keys \<open>base+c\<close> for the letters \<open>c\<close> of a string.\<close>

definition letter_variants :: "string \<Rightarrow> string \<Rightarrow> string set" where
  "letter_variants base letters = (\<lambda>c. base @ [c]) ` set letters"

text \<open>
  A year token of a text: at index \<open>i\<close> stand \<open>19\<close> or \<open>20\<close> and two more digits, with no
  word character directly before or after the four digits. The first year token is the
  one at the least index, and its value is the number the four digits spell.
\<close>

definition year_token_at :: "string \<Rightarrow> nat \<Rightarrow> bool" where
  "year_token_at s i =
     (i + 4 \<le> length s \<and>
      (take 2 (drop i s) = ''19'' \<or> take 2 (drop i s) = ''20'') \<and>
      isdigit (s ! (i + 2)) \<and> isdigit (s ! (i + 3)) \<and>
      (if i = 0 then True else \<not> isword (s ! (i - 1))) \<and>
      (if i + 4 = length s then True else \<not> isword (s ! (i + 4))))"

definition first_year_token :: "string \<Rightarrow> nat option" where
  "first_year_token s = find (year_token_at s) [0..<length s]"

definition digit_value :: "char \<Rightarrow> int" where
  "digit_value c = int (ord c - 48)"

definition year_value :: "string \<Rightarrow> nat \<Rightarrow> int" where
  "year_value s i =
     1000 * digit_value (s ! i) + 100 * digit_value (s ! (i + 1)) +
     10 * digit_value (s ! (i + 2)) + digit_value (s ! (i + 3))"

text \<open>
  The key embedded in a structured entry, as a BibTeX reader finds it: after the first
  \<open>@\<close> and the entry type, whitespace allowed, an opening brace or parenthesis, whitespace
  allowed, then the key, which ends at whitespace, a comma or a closing brace.
\<close>

definition embedded_key :: "string \<Rightarrow> string option" where
  "embedded_key s =
     (case dropWhile (\<lambda>c. c \<noteq> CHR ''@'') s of
        [] \<Rightarrow> None
      | c0 # r \<Rightarrow>
          (case dropWhile isspace
                  (dropWhile (\<lambda>c. \<not> isspace c \<and> c \<noteq> CHR ''{'' \<and> c \<noteq> CHR ''('') r) of
             [] \<Rightarrow> None
           | b # r1 \<Rightarrow>
               if b = CHR ''{'' \<or> b = CHR ''(''
               then Some (takeWhile (\<lambda>c. \<not> isspace c \<and> c \<noteq> CHR '','' \<and> c \<noteq> CHR ''}'')
                            (dropWhile isspace r1))
               else None))"

text \<open>The requests among the events of a strategy.\<close>

fun is_request :: "event \<Rightarrow> bool" where
  "is_request (Request n) = True"
| "is_request (Sleep t) = False"



section \<open>Concrete inputs\<close>

text \<open>A file path, and a world without \<open>pdf2bib\<close> in which every request fails and no
  library returns anything.\<close>

definition paper_path :: Path where
  "paper_path = \<lparr>path_str = ''/docs/paper.pdf'', name = ''paper.pdf''\<rparr>"

definition offline :: world where
  "offline = \<lparr>PDF2BIB_AVAILABLE = False,
              pdf2bib_call = (\<lambda>p. None),
              parse_bibtex = (\<lambda>s. None),
              session_get = (\<lambda>u n. RequestException),
              parse_atom_feed = (\<lambda>s. None),
              fitz_metadata = (\<lambda>p. None)\<rparr>"





text \<open>
  A BibTeX entry with a space between the entry type and the brace, as BibTeX allows, the
  entry a BibTeX parser reads from it, and a world in which CrossRef answers every
  request with it.
\<close>

definition spaced_entry :: string where
  "spaced_entry = ''@article {Old2020, title={T}, year={2020}}''"

definition spaced_parsed :: bib_entry where
  "spaced_parsed = \<lparr>entry_persons = map_of [],
                     entry_fields = map_of [(''title'', ''T''), (''year'', ''2020'')]\<rparr>"

definition crossref_spaced :: world where
  "crossref_spaced = offline\<lparr>parse_bibtex := (\<lambda>s. Some [spaced_parsed]),
                             session_get := (\<lambda>u n. Response 200 spaced_entry)\<rparr>"

text \<open>A world in which CrossRef's first request fails in transport, the second is answered
  with status 500 and the third with status 404.\<close>

definition flaky :: world where
  "flaky = offline\<lparr>session_get :=
             (\<lambda>u n. if n = 0 then RequestException
                    else if n = 1 then Response 500 [] else Response 404 [])\<rparr>"

(*THEOREMS*)
section \<open>The key generator: collisions\<close>

lemma key_loop_exhausted:
  "key \<in> ks \<Longrightarrow> sfx \<le> 122 \<Longrightarrow> (\<forall>n. sfx \<le> n \<and> n < 122 \<longrightarrow> b @ [chr n] \<in> ks)
     \<Longrightarrow> key_loop b ks key sfx = b @ ''_'' @ str_nat (card ks)"
proof (induction b ks key sfx rule: key_loop.induct)
  case (1 base existing_keys key sfx)
  show ?case
  proof (cases "sfx + 1 > ord (CHR ''z'')")
    case True
    with "1.prems" show ?thesis by (subst key_loop.simps) simp
  next
    case False
    then have lt: "sfx < 122" by (simp add: ord_def)
    have "key_loop base existing_keys (base @ [chr sfx]) (sfx + 1)
            = base @ ''_'' @ str_nat (card existing_keys)"
      using "1.IH"[OF "1.prems"(1) refl refl False] "1.prems" lt by simp
    with "1.prems"(1) False show ?thesis by (subst key_loop.simps) simp
  qed
qed

lemma letters_chr: "97 \<le> n \<Longrightarrow> n \<le> 122 \<Longrightarrow> chr n \<in> set ''abcdefghijklmnopqrstuvwxyz''"
proof -
  assume "97 \<le> n" "n \<le> 122"
  then have "n \<in> {97..<123}" by simp
  then have "n \<in> set [97..<123]" by (simp only: set_upt)
  moreover have "\<forall>k \<in> set [97..<123]. chr k \<in> set ''abcdefghijklmnopqrstuvwxyz''"
    by code_simp
  ultimately show ?thesis by blast
qed

lemma card_letter_variants:
  "card (insert b (letter_variants b ''abcdefghijklmnopqrstuvwxyz'')) = 27"
proof -
  have inj: "inj_on (\<lambda>c. b @ [c]) (set ''abcdefghijklmnopqrstuvwxyz'')"
    by (rule inj_onI) simp
  have d: "distinct ''abcdefghijklmnopqrstuvwxyz''" by code_simp
  have "card (set ''abcdefghijklmnopqrstuvwxyz'') = 26"
    using distinct_card[OF d] by simp
  then have "card ((\<lambda>c. b @ [c]) ` set ''abcdefghijklmnopqrstuvwxyz'') = 26"
    using card_image[OF inj] by simp
  moreover have "b \<notin> (\<lambda>c. b @ [c]) ` set ''abcdefghijklmnopqrstuvwxyz''" by auto
  ultimately show ?thesis by (simp add: card_insert_if letter_variants_def)
qed

lemma str_nat_27: "str_nat 27 = ''27''"
  by code_simp

text \<open>
  C5. When the existing keys are a base key and its 26 letter variants \<open>base+a\<close> ..
  \<open>base+z\<close>, 27 keys, the next key for the same base is \<open>base_27\<close>, the count-based
  key, and no further letter.
\<close>

theorem collision_exhaustion:
  "generate_bibtex_key auths yr
     (insert (base_key auths yr)
        (letter_variants (base_key auths yr) ''abcdefghijklmnopqrstuvwxyz''))
   = base_key auths yr @ ''_27''"
proof -
  let ?b = "base_key auths yr"
  let ?ks = "insert ?b (letter_variants ?b ''abcdefghijklmnopqrstuvwxyz'')"
  have "key_loop ?b ?ks ?b 97 = ?b @ ''_'' @ str_nat (card ?ks)"
    by (rule key_loop_exhausted) (use letters_chr in \<open>auto simp: letter_variants_def\<close>)
  moreover have "ord (CHR ''a'') = 97" by (simp add: ord_def)
  ultimately show ?thesis
    unfolding generate_bibtex_key_def Let_def
    by (simp only: card_letter_variants str_nat_27) simp
qed

theorem collision_exhaustion_witness:
  "generate_bibtex_key [''Smith, John''] 2024
     (insert ''Smith2024'' (letter_variants ''Smith2024'' ''abcdefghijklmnopqrstuvwxyz''))
   = ''Smith2024_27''"
proof -
  have b: "base_key [''Smith, John''] 2024 = ''Smith2024''" by code_simp
  show ?thesis using collision_exhaustion[of "[''Smith, John'']" 2024] unfolding b by simp
qed

text \<open>
  C1, at the input where it fails. The existing keys are \<open>Unknown2024\<close>, its variants
  \<open>a\<close> .. \<open>y\<close> and \<open>Unknown2024_27\<close>, 27 keys. The loop leaves with the count-based key
  \<open>Unknown2024_27\<close> without testing it: the returned key is a member of the existing
  keys, and the next call, with the returned key added, returns the same key again.
\<close>

theorem fallback_key_collides:
  "generate_bibtex_key [] 2024
     (insert ''Unknown2024_27''
        (insert ''Unknown2024'' (letter_variants ''Unknown2024'' ''abcdefghijklmnopqrstuvwxy'')))
     = ''Unknown2024_27'' \<and>
   generate_bibtex_key [] 2024
     (insert ''Unknown2024_27''
        (insert ''Unknown2024'' (letter_variants ''Unknown2024'' ''abcdefghijklmnopqrstuvwxy'')))
     \<in> insert ''Unknown2024_27''
        (insert ''Unknown2024'' (letter_variants ''Unknown2024'' ''abcdefghijklmnopqrstuvwxy'')) \<and>
   generate_bibtex_key [] 2024
     (insert ''Unknown2024_27''
        (insert ''Unknown2024_27''
           (insert ''Unknown2024'' (letter_variants ''Unknown2024'' ''abcdefghijklmnopqrstuvwxy''))))
     = ''Unknown2024_27''"
  by code_simp

text \<open>
  C4, at the input where it fails. The existing keys are \<open>Unknown2024\<close> and its variants
  \<open>a\<close> .. \<open>y\<close>; \<open>Unknown2024z\<close> is free. The loop builds \<open>Unknown2024z\<close> and overwrites it
  with the count-based key in the same iteration, so the letter \<open>z\<close> is never returned.
\<close>

theorem letter_z_skipped:
  "generate_bibtex_key [] 2024
     (insert ''Unknown2024'' (letter_variants ''Unknown2024'' ''abcdefghijklmnopqrstuvwxy''))
     = ''Unknown2024_26'' \<and>
   ''Unknown2024z''
     \<notin> insert ''Unknown2024'' (letter_variants ''Unknown2024'' ''abcdefghijklmnopqrstuvwxy'')"
  by code_simp

section \<open>DOI extraction\<close>

lemma re_search_suffix:
  "re_search p t = Some m \<Longrightarrow> \<exists>u. suffix u t \<and> p u = Some m"
proof (induction t)
  case Nil
  then show ?case by auto
next
  case (Cons c cs)
  show ?case
  proof (cases "p (c # cs)")
    case None
    with Cons obtain u where "suffix u cs" "p u = Some m" by auto
    then show ?thesis by (auto simp: suffix_Cons)
  next
    case (Some x)
    with Cons.prems show ?thesis by auto
  qed
qed

lemma re_search_found:
  "suffix u t \<Longrightarrow> p u \<noteq> None \<Longrightarrow> re_search p t \<noteq> None"
proof (induction t)
  case Nil
  then show ?case by auto
next
  case (Cons c cs)
  then show ?case by (cases "p (c # cs)") (auto simp: suffix_Cons)
qed

lemma match_doi_prefixed_inner:
  "match_doi_prefixed u = Some m \<Longrightarrow> \<exists>v. suffix v u \<and> match_doi v \<noteq> None"
proof -
  assume a: "match_doi_prefixed u = Some m"
  then obtain p r where pr: "match_literal_ic ''doi:'' u = Some (p, r)"
    by (auto simp: match_doi_prefixed_def split: option.splits)
  then obtain n where r: "r = drop n u"
    by (auto simp: match_literal_ic_def Let_def split: if_splits)
  from a pr have "match_doi (dropWhile isspace r) \<noteq> None"
    by (auto simp: match_doi_prefixed_def Let_def split: option.splits)
  moreover have "suffix (dropWhile isspace r) u"
    unfolding r by (meson suffix_dropWhile suffix_drop suffix_order.trans)
  ultimately show ?thesis by blast
qed

lemma prefixed_never_first:
  assumes a: "re_search match_doi_prefixed t = Some m"
  shows "re_search match_doi t \<noteq> None"
proof -
  from re_search_suffix[OF a] show ?thesis
  proof (elim exE conjE)
    fix u assume u1: "suffix u t" and u2: "match_doi_prefixed u = Some m"
    from match_doi_prefixed_inner[OF u2] show ?thesis
    proof (elim exE conjE)
      fix v assume v1: "suffix v u" and v2: "match_doi v \<noteq> None"
      have "suffix v t" using v1 u1 by (rule suffix_order.trans)
      then show ?thesis using v2 by (rule re_search_found)
    qed
  qed
qed

lemma match_doi_shape:
  "match_doi s = Some m \<Longrightarrow> \<exists>ds body. m = ''10.'' @ ds @ ''/'' @ body"
  by (auto simp: match_doi_def Let_def split: list.splits if_splits)

lemma rstrip_chars_keep:
  "c \<notin> cs \<Longrightarrow> rstrip_chars cs (xs @ c # ys) = xs @ c # rstrip_chars cs ys"
  by (simp add: rstrip_chars_def dropWhile_append)

lemma rstrip_chars_last:
  "rstrip_chars cs s \<noteq> [] \<Longrightarrow> last (rstrip_chars cs s) \<notin> cs"
  unfolding rstrip_chars_def
  by (metis (mono_tags, lifting) hd_dropWhile last_rev rev_is_Nil_conv)

lemma extract_doi_shape:
  assumes "extract_doi_from_text t = Some d"
  shows "\<exists>ds body. d = ''10.'' @ ds @ ''/'' @ rstrip_chars (set ''.,;:'') body"
proof -
  have "\<exists>m. re_search match_doi t = Some m \<and>
            d = rstrip_chars (set ''.,;:'') (strip_doi_prefix m)"
  proof (cases "re_search match_doi t")
    case (Some m)
    with assms show ?thesis by (simp add: extract_doi_from_text_def doi_patterns_def)
  next
    case None
    have "re_search match_doi_prefixed t = None"
    proof (cases "re_search match_doi_prefixed t")
      case None
      then show ?thesis .
    next
      case (Some m)
      from prefixed_never_first[OF Some] None show ?thesis by simp
    qed
    with None assms show ?thesis by (simp add: extract_doi_from_text_def doi_patterns_def)
  qed
  then obtain m where m: "re_search match_doi t = Some m"
    and d: "d = rstrip_chars (set ''.,;:'') (strip_doi_prefix m)" by blast
  from re_search_suffix[OF m] obtain u where u: "match_doi u = Some m" by blast
  from match_doi_shape[OF u] obtain ds body where sh: "m = ''10.'' @ ds @ ''/'' @ body"
    by blast
  then have "strip_doi_prefix m = m" by (simp add: strip_doi_prefix_def)
  moreover have "rstrip_chars (set ''.,;:'') ((''10.'' @ ds) @ CHR ''/'' # body)
                 = (''10.'' @ ds) @ CHR ''/'' # rstrip_chars (set ''.,;:'') body"
    by (rule rstrip_chars_keep) simp
  ultimately have "d = ''10.'' @ ds @ ''/'' @ rstrip_chars (set ''.,;:'') body"
    using d sh by simp
  then show ?thesis by (intro exI)
qed

text \<open>
  C10. The text \<open>See doi: 10.1234/abcd.5678.\<close> yields the DOI \<open>10.1234/abcd.5678\<close>. In
  general a returned DOI starts with \<open>10.\<close>, so it carries no \<open>doi:\<close> prefix in any
  case of letters, and it does not end in a period, comma, semicolon or colon.
\<close>

theorem doi_extraction:
  "extract_doi_from_text ''See doi: 10.1234/abcd.5678.'' = Some ''10.1234/abcd.5678'' \<and>
   (\<forall>text d. extract_doi_from_text text = Some d \<longrightarrow>
      take 3 d = ''10.'' \<and> map lower (take 4 d) \<noteq> ''doi:'' \<and> last d \<notin> set ''.,;:'')"
proof (intro conjI allI impI)
  show "extract_doi_from_text ''See doi: 10.1234/abcd.5678.'' = Some ''10.1234/abcd.5678''"
    by code_simp
next
  fix t d assume a: "extract_doi_from_text t = Some d"
  from extract_doi_shape[OF a]
  obtain ds body where d: "d = ''10.'' @ ds @ ''/'' @ rstrip_chars (set ''.,;:'') body"
    by blast
  show "take 3 d = ''10.''" using d by simp
  have "hd (map lower (take 4 d)) = lower (CHR ''1'')" using d by simp
  moreover have "lower (CHR ''1'') = CHR ''1''" by (simp add: lower_def ord_def)
  ultimately have h: "hd (map lower (take 4 d)) = CHR ''1''" by simp
  show "map lower (take 4 d) \<noteq> ''doi:''"
  proof
    assume "map lower (take 4 d) = ''doi:''"
    then have "hd (map lower (take 4 d)) = CHR ''d''" by simp
    with h show False by simp
  qed
  show "last d \<notin> set ''.,;:''"
  proof (cases "rstrip_chars (set ''.,;:'') body = []")
    case True
    then show ?thesis using d by simp
  next
    case False
    then have "last d = last (rstrip_chars (set ''.,;:'') body)" using d by simp
    then show ?thesis using rstrip_chars_last[OF False] by simp
  qed
qed

theorem doi_extraction_witness:
  "extract_doi_from_text ''cf. DOI:10.5555/xy.z;: next'' = Some ''10.5555/xy.z'' \<and>
   take 3 ''10.5555/xy.z'' = ''10.'' \<and> map lower (take 4 ''10.5555/xy.z'') \<noteq> ''doi:'' \<and>
   last ''10.5555/xy.z'' \<notin> set ''.,;:''"
proof -
  have e: "extract_doi_from_text ''cf. DOI:10.5555/xy.z;: next'' = Some ''10.5555/xy.z''"
    by code_simp
  note g = doi_extraction[THEN conjunct2, rule_format, OF e]
  show ?thesis using e g by (rule conjI)
qed


section \<open>The text heuristic: the title\<close>

text \<open>
  C7, at the inputs where it fails. \<open>text.split('\n')\<close> never returns an empty list, so
  the title is always the first line, also when that line is empty, and the file name
  stem is never used: for the empty text the title is the empty string and not the stem
  \<open>paper\<close>, and for a text whose first line is empty the title is the empty string and not
  the first non-empty line.
\<close>

theorem text_title_not_stem:
  "map_sum id title (parse_metadata_from_text [] paper_path {}) = Inr [] \<and>
   stem paper_path = ''paper'' \<and>
   map_sum id title (parse_metadata_from_text (CHR 0x0A # ''Deep Learning'') paper_path {}) = Inr []"
  by code_simp

section \<open>The normalizer: the year field\<close>




section \<open>Key and entry of a record\<close>

text \<open>
  C9, at the input where it fails. CrossRef answers with an entry that has a space
  between the entry type and the brace. The pattern of \<open>_replace_bibtex_key\<close> needs
  the brace directly after the type, finds no match and returns the text as it is: the
  record has the key \<open>Unknown2020\<close> and an entry whose embedded key is still \<open>Old2020\<close>.
\<close>

theorem inline_key_not_replaced:
  "map_option bibtex_key
     (snd (get_metadata_from_crossref (MetadataExtractor_init None) crossref_spaced ''10.1000/x'' {}))
     = Some ''Unknown2020'' \<and>
   map_option bibtex_entry
     (snd (get_metadata_from_crossref (MetadataExtractor_init None) crossref_spaced ''10.1000/x'' {}))
     = Some ''@article {Old2020, title={T}, year={2020}}'' \<and>
   embedded_key ''@article {Old2020, title={T}, year={2020}}'' = Some ''Old2020''"
  by code_simp


section \<open>The text heuristic: never failing, and the year\<close>

lemma year_at_iff:
  "year_at s \<longleftrightarrow>
     4 \<le> length s \<and> (take 2 s = ''19'' \<or> take 2 s = ''20'') \<and>
     isdigit (s ! 2) \<and> isdigit (s ! 3) \<and>
     (if 4 = length s then True else \<not> isword (s ! 4))"
proof (cases s rule: year_at.cases)
  case (1 a b c d rest)
  then show ?thesis by (cases rest) (auto simp: numeral_2_eq_2 numeral_3_eq_3)
qed auto

lemma year_token_at_append:
  "year_token_at (pre @ s) (length pre) \<longleftrightarrow>
     (pre = [] \<or> \<not> isword (last pre)) \<and> year_at s"
proof -
  have prev: "pre \<noteq> [] \<Longrightarrow> (pre @ s) ! (length pre - 1) = last pre"
    by (simp add: nth_append last_conv_nth)
  have f1: "length pre + 4 \<le> length (pre @ s) \<longleftrightarrow> 4 \<le> length s" by simp
  have f2: "drop (length pre) (pre @ s) = s" by simp
  have f3: "(pre @ s) ! (length pre + 2) = s ! 2" "(pre @ s) ! (length pre + 3) = s ! 3"
    "(pre @ s) ! (length pre + 4) = s ! 4"
    by (simp_all add: nth_append)
  have f4: "length pre + 4 = length (pre @ s) \<longleftrightarrow> 4 = length s" by auto
  have f5: "(if length pre = 0 then True else \<not> isword ((pre @ s) ! (length pre - 1)))
              \<longleftrightarrow> (pre = [] \<or> \<not> isword (last pre))"
    using prev by auto
  show ?thesis
    unfolding year_token_at_def year_at_iff
    by (simp only: f1 f2 f3 f4 f5) blast
qed

lemma search_year_from_find:
  "pw = (pre \<noteq> [] \<and> isword (last pre)) \<Longrightarrow>
   search_year_from pw s =
     map_option (\<lambda>i. take 4 (drop i (pre @ s)))
       (find (year_token_at (pre @ s)) [length pre..<length pre + length s])"
proof (induction s arbitrary: pre pw)
  case Nil
  then show ?case by simp
next
  case (Cons c cs)
  have upt: "[length pre..<length pre + length (c # cs)]
               = length pre # [length (pre @ [c])..<length (pre @ [c]) + length cs]"
  proof -
    have "length pre < length pre + length (c # cs)" by simp
    from upt_conv_Cons[OF this] show ?thesis by simp
  qed
  have tok: "year_token_at (pre @ c # cs) (length pre) \<longleftrightarrow> \<not> pw \<and> year_at (c # cs)"
    using Cons.prems year_token_at_append[of pre "c # cs"] by auto
  have ih: "search_year_from (isword c) cs =
     map_option (\<lambda>i. take 4 (drop i (pre @ c # cs)))
       (find (year_token_at (pre @ c # cs)) [length (pre @ [c])..<length (pre @ [c]) + length cs])"
    using Cons.IH[of "isword c" "pre @ [c]"] by simp
  show ?case
  proof (cases "\<not> pw \<and> year_at (c # cs)")
    case True
    then show ?thesis using tok by (simp only: upt find.simps) simp
  next
    case False
    then have "search_year_from pw (c # cs) = search_year_from (isword c) cs" by auto
    moreover have "find (year_token_at (pre @ c # cs)) [length pre..<length pre + length (c # cs)]
        = find (year_token_at (pre @ c # cs)) [length (pre @ [c])..<length (pre @ [c]) + length cs]"
      using False tok by (simp only: upt find.simps) simp
    ultimately show ?thesis using ih by simp
  qed
qed

lemma search_year_first_token:
  "search_year s = map_option (\<lambda>i. take 4 (drop i s)) (first_year_token s)"
  using search_year_from_find[of False "[]" s]
  by (simp add: search_year_def first_year_token_def)

lemma isdigit_not_space: "isdigit c \<Longrightarrow> \<not> isspace c"
  by (auto simp: isdigit_def isspace_def Let_def)

lemma isdigit_not_sign: "isdigit c \<Longrightarrow> c \<noteq> CHR ''-'' \<and> c \<noteq> CHR ''+'' \<and> c \<noteq> CHR ''_''"
  by (auto simp: isdigit_def ord_def Let_def)

lemma py_int_four_digits:
  assumes "isdigit a" "isdigit b" "isdigit c" "isdigit d"
  shows "py_int [a, b, c, d] =
           Some (1000 * digit_value a + 100 * digit_value b + 10 * digit_value c + digit_value d)"
proof -
  have s: "strip [a, b, c, d] = [a, b, c, d]"
    using assms isdigit_not_space by (simp add: strip_def)
  have "int_digits False 0 [a, b, c, d] =
          Some (10 * (10 * (10 * (ord a - 48) + (ord b - 48)) + (ord c - 48)) + (ord d - 48))"
    using assms by simp
  then show ?thesis
    using isdigit_not_sign[OF assms(1)] by (simp add: py_int_def s digit_value_def)
qed

lemma token_digits:
  assumes "year_token_at s i"
  shows "take 4 (drop i s) = [s ! i, s ! (i + 1), s ! (i + 2), s ! (i + 3)]"
    and "isdigit (s ! i)" and "isdigit (s ! (i + 1))"
    and "isdigit (s ! (i + 2))" and "isdigit (s ! (i + 3))"
proof -
  from assms have len: "i + 4 \<le> length s" by (simp add: year_token_at_def)
  then obtain a b c d rest where d: "drop i s = a # b # c # d # rest"
    by (metis (no_types, opaque_lifting) Cons_nth_drop_Suc add_Suc_right add_lessD1 
        less_add_Suc1 linorder_not_less not_less_eq numeral_Bit0 numeral_One 
        one_add_one add.commute plus_1_eq_Suc less_le_trans lessI)
  have n: "\<And>k. k < 4 \<Longrightarrow> s ! (i + k) = (drop i s) ! k"
    using len by simp
  show "take 4 (drop i s) = [s ! i, s ! (i + 1), s ! (i + 2), s ! (i + 3)]"
    using n[of 0] n[of 1] n[of 2] n[of 3] d by (simp add: numeral_2_eq_2 numeral_3_eq_3)
  from assms have t2: "take 2 (drop i s) = ''19'' \<or> take 2 (drop i s) = ''20''"
    by (simp add: year_token_at_def)
  with d n[of 0] n[of 1] show "isdigit (s ! i)" "isdigit (s ! (i + 1))"
    by (auto simp: isdigit_def ord_def)
  from assms show "isdigit (s ! (i + 2))" "isdigit (s ! (i + 3))"
    by (simp_all add: year_token_at_def)
qed

lemma py_int_token:
  assumes "year_token_at s i"
  shows "py_int (take 4 (drop i s)) = Some (year_value s i)"
  using token_digits[OF assms] py_int_four_digits
  by (simp add: year_value_def)

lemma text_heuristic_record:
  "\<exists>r. parse_metadata_from_text t pdf_path existing_keys = Inr r \<and>
        extraction_method r = PARSED \<and>
        authors r = [''Unknown''] \<and>
        year r = (case first_year_token t of Some i \<Rightarrow> year_value t i | None \<Rightarrow> 2024)"
proof (cases "first_year_token t")
  case None
  then have "search_year t = None" by (simp add: search_year_first_token)
  with None show ?thesis by (simp add: parse_metadata_from_text_def Let_def)
next
  case (Some i)
  then have tok: "year_token_at t i"
    by (auto simp: first_year_token_def find_Some_iff)
  from Some have "search_year t = Some (take 4 (drop i t))"
    by (simp add: search_year_first_token)
  with py_int_token[OF tok] Some show ?thesis
    by (simp add: parse_metadata_from_text_def Let_def)
qed

text \<open>
  C3. For every text, also the empty one, every path and every set of keys, the text
  heuristic raises nothing and returns a record: its method is the text heuristic
  (\<open>PARSED\<close>), its authors are \<open>["Unknown"]\<close>, and its year is the value of the first
  year token of the text, a token of four digits starting with 19 or 20 that no word
  character touches, or 2024 when the text has no such token.
\<close>

theorem text_heuristic_total:
  "\<exists>r. parse_metadata_from_text t pdf_path existing_keys = Inr r \<and>
        extraction_method r = PARSED \<and>
        authors r = [''Unknown''] \<and>
        year r = (case first_year_token t of Some i \<Rightarrow> year_value t i | None \<Rightarrow> 2024)"
  by (rule text_heuristic_record)

theorem text_heuristic_total_witness:
  "\<exists>r. parse_metadata_from_text ''Nature (2011) x1999'' paper_path {} = Inr r \<and>
        extraction_method r = PARSED \<and>
        authors r = [''Unknown''] \<and>
        year r = 2011"
proof -
  have f: "first_year_token ''Nature (2011) x1999'' = Some 8" by code_simp
  have v: "year_value ''Nature (2011) x1999'' 8 = 2011" by code_simp
  show ?thesis
    using text_heuristic_total[of "''Nature (2011) x1999''" paper_path "{}"]
    by (simp only: f v option.case)
qed

section \<open>The CrossRef lookup: attempts and backoff\<close>

lemma suffix_request_cons:
  "suffix (Request i # post) (Request a # xs) \<longleftrightarrow>
     (i = a \<and> post = xs) \<or> suffix (Request i # post) xs"
  by (auto simp: suffix_Cons)

lemma suffix_request_sleep:
  "suffix (Request i # post) (Sleep t # xs) \<longleftrightarrow> suffix (Request i # post) xs"
  by (auto simp: suffix_Cons)

lemma crossref_attempts_head:
  "\<exists>tl. fst (crossref_attempts self w d ks (a # rest)) = Request a # tl"
  by (auto simp: then_events_def split: http_outcome.splits option.splits)

lemma crossref_attempts_count:
  "length (filter is_request (fst (crossref_attempts self w d ks xs))) \<le> length xs"
  by (induction xs) (auto simp: then_events_def split: http_outcome.splits option.splits)

lemma crossref_attempts_not_found:
  "suffix (Request i # post) (fst (crossref_attempts self w d ks xs)) \<Longrightarrow>
   session_get w (crossref_url d) i = Response 404 body \<Longrightarrow>
   post = [] \<and> snd (crossref_attempts self w d ks xs) = None"
proof (induction xs)
  case Nil
  then show ?case by simp
next
  case (Cons a rest)
  show ?case
  proof (cases "session_get w (crossref_url d) a")
    case RequestException
    with Cons show ?thesis
      by (auto simp: then_events_def suffix_request_cons suffix_request_sleep split: if_splits)
  next
    case (Response st b)
    with Cons show ?thesis
      by (auto simp: then_events_def suffix_request_cons split: option.splits if_splits)
  qed
qed

lemma crossref_attempts_backoff:
  "suffix (Request i # post) (fst (crossref_attempts self w d ks [a..<n])) \<Longrightarrow>
   session_get w (crossref_url d) i = RequestException \<Longrightarrow>
   int i < max_retries self - 1 \<Longrightarrow> n = nat (max_retries self) \<Longrightarrow>
   \<exists>rest. post = Sleep (retry_delay self * 2 ^ i) # Request (Suc i) # rest"
proof (induction "n - a" arbitrary: a)
  case 0
  then show ?case by simp
next
  case (Suc k)
  then have lt: "a < n" by simp
  then have upt: "[a..<n] = a # [Suc a..<n]" by (rule upt_conv_Cons)
  have ih: "suffix (Request i # post) (fst (crossref_attempts self w d ks [Suc a..<n])) \<Longrightarrow>
            \<exists>rest. post = Sleep (retry_delay self * 2 ^ i) # Request (Suc i) # rest"
    using Suc.hyps(1)[of "Suc a"] Suc.hyps(2) Suc.prems(2,3,4) by simp
  show ?case
  proof (cases "session_get w (crossref_url d) a")
    case (Response st b)
    with Suc.prems(1,2) ih show ?thesis
      unfolding upt
      by (auto simp: then_events_def suffix_request_cons split: option.splits if_splits)
  next
    case RequestException
    show ?thesis
    proof (cases "int a < max_retries self - 1")
      case True
      then have "Suc a < n" using Suc.prems(4) by simp
      then have "[Suc a..<n] = Suc a # [Suc (Suc a)..<n]" by (rule upt_conv_Cons)
      then obtain tl where tl: "fst (crossref_attempts self w d ks [Suc a..<n]) = Request (Suc a) # tl"
        using crossref_attempts_head[of self w d ks "Suc a" "[Suc (Suc a)..<n]"] by auto
      from Suc.prems(1) RequestException True ih tl show ?thesis
        unfolding upt
        by (auto simp: then_events_def suffix_request_cons suffix_request_sleep)
    next
      case False
      with Suc.prems(1,2,3) RequestException ih show ?thesis
        unfolding upt
        by (auto simp: then_events_def suffix_request_cons)
    qed
  qed
qed

lemma crossref_attempts_other_status:
  "suffix (Request i # post) (fst (crossref_attempts self w d ks [a..<n])) \<Longrightarrow>
   session_get w (crossref_url d) i = Response st body \<Longrightarrow>
   st \<noteq> 200 \<Longrightarrow> st \<noteq> 404 \<Longrightarrow> Suc i < n \<Longrightarrow>
   \<exists>rest. post = Request (Suc i) # rest"
proof (induction "n - a" arbitrary: a)
  case 0
  then show ?case by simp
next
  case (Suc k)
  then have lt: "a < n" by simp
  then have upt: "[a..<n] = a # [Suc a..<n]" by (rule upt_conv_Cons)
  have ih: "suffix (Request i # post) (fst (crossref_attempts self w d ks [Suc a..<n])) \<Longrightarrow>
            \<exists>rest. post = Request (Suc i) # rest"
    using Suc.hyps(1)[of "Suc a"] Suc.hyps(2) Suc.prems(2,3,4,5) by simp
  have hd: "Suc a < n \<Longrightarrow>
            \<exists>tl. fst (crossref_attempts self w d ks [Suc a..<n]) = Request (Suc a) # tl"
  proof -
    assume "Suc a < n"
    then have "[Suc a..<n] = Suc a # [Suc (Suc a)..<n]" by (rule upt_conv_Cons)
    then show ?thesis
      using crossref_attempts_head[of self w d ks "Suc a" "[Suc (Suc a)..<n]"] by simp
  qed
  show ?case
  proof (cases "session_get w (crossref_url d) a")
    case (Response st' b)
    with Suc.prems ih hd show ?thesis
      unfolding upt
      by (auto simp: then_events_def suffix_request_cons split: option.splits if_splits)
  next
    case RequestException
    with Suc.prems ih show ?thesis
      unfolding upt
      by (auto simp: then_events_def suffix_request_cons suffix_request_sleep split: if_splits)
  qed
qed

text \<open>
  C6. The lookup makes at most \<open>max_retries\<close> requests, which is 3 for an extractor as the
  constructor builds it. A request answered with status 404 is the last event and the
  lookup returns no record. A request number \<open>i\<close> (from 0) that fails in transport and is
  not the last attempt is followed by a sleep of \<open>retry_delay * 2 ^ i\<close> and then by the
  next request. A request answered with any status other than 200 and 404 is followed
  directly by the next request as long as attempts remain.
\<close>

theorem crossref_retry_policy:
  "length (filter is_request (fst (get_metadata_from_crossref self w d ks)))
     \<le> nat (max_retries self) \<and>
   max_retries (MetadataExtractor_init email) = 3 \<and>
   (\<forall>i post body.
      suffix (Request i # post) (fst (get_metadata_from_crossref self w d ks)) \<and>
      session_get w (crossref_url d) i = Response 404 body
      \<longrightarrow> post = [] \<and> snd (get_metadata_from_crossref self w d ks) = None) \<and>
   (\<forall>i post.
      suffix (Request i # post) (fst (get_metadata_from_crossref self w d ks)) \<and>
      session_get w (crossref_url d) i = RequestException \<and>
      int i < max_retries self - 1
      \<longrightarrow> (\<exists>rest. post = Sleep (retry_delay self * 2 ^ i) # Request (Suc i) # rest)) \<and>
   (\<forall>i post st body.
      suffix (Request i # post) (fst (get_metadata_from_crossref self w d ks)) \<and>
      session_get w (crossref_url d) i = Response st body \<and> st \<noteq> 200 \<and> st \<noteq> 404 \<and>
      int (Suc i) < max_retries self
      \<longrightarrow> (\<exists>rest. post = Request (Suc i) # rest))"
proof -
  have c1: "length (filter is_request (fst (get_metadata_from_crossref self w d ks)))
          \<le> nat (max_retries self)"
    using crossref_attempts_count[of self w d ks "[0..<nat (max_retries self)]"]
    by (simp add: get_metadata_from_crossref_def)
  have c2: "max_retries (MetadataExtractor_init email) = 3"
    by (simp add: MetadataExtractor_init_def)
  have c3: "\<forall>i post body.
      suffix (Request i # post) (fst (get_metadata_from_crossref self w d ks)) \<and>
      session_get w (crossref_url d) i = Response 404 body
      \<longrightarrow> post = [] \<and> snd (get_metadata_from_crossref self w d ks) = None"
    unfolding get_metadata_from_crossref_def
    using crossref_attempts_not_found[of _ _ self w d ks "[0..<nat (max_retries self)]"]
    by blast
  have c4: "\<forall>i post.
      suffix (Request i # post) (fst (get_metadata_from_crossref self w d ks)) \<and>
      session_get w (crossref_url d) i = RequestException \<and>
      int i < max_retries self - 1
      \<longrightarrow> (\<exists>rest. post = Sleep (retry_delay self * 2 ^ i) # Request (Suc i) # rest)"
    unfolding get_metadata_from_crossref_def
    using crossref_attempts_backoff[of _ _ self w d ks 0 "nat (max_retries self)"]
    by blast
  have c5: "\<forall>i post st body.
      suffix (Request i # post) (fst (get_metadata_from_crossref self w d ks)) \<and>
      session_get w (crossref_url d) i = Response st body \<and> st \<noteq> 200 \<and> st \<noteq> 404 \<and>
      int (Suc i) < max_retries self
      \<longrightarrow> (\<exists>rest. post = Request (Suc i) # rest)"
  proof (intro allI impI)
    fix i post st body
    assume a: "suffix (Request i # post) (fst (get_metadata_from_crossref self w d ks)) \<and>
          session_get w (crossref_url d) i = Response st body \<and> st \<noteq> 200 \<and> st \<noteq> 404 \<and>
          int (Suc i) < max_retries self"
    then have "Suc i < nat (max_retries self)" by linarith
    with a show "\<exists>rest. post = Request (Suc i) # rest"
      unfolding get_metadata_from_crossref_def
      using crossref_attempts_other_status[of i post self w d ks 0 "nat (max_retries self)" st body]
      by blast
  qed
  show ?thesis
    by (rule conjI[OF c1 conjI[OF c2 conjI[OF c3 conjI[OF c4 c5]]]])
qed

theorem crossref_retry_policy_witness:
  "fst (get_metadata_from_crossref (MetadataExtractor_init None) flaky ''10.1000/x'' {})
     = [Request 0, Sleep 1, Request 1, Request 2] \<and>
   length (filter is_request
     (fst (get_metadata_from_crossref (MetadataExtractor_init None) flaky ''10.1000/x'' {}))) \<le> 3 \<and>
   session_get flaky (crossref_url ''10.1000/x'') 0 = RequestException \<and>
   (\<exists>rest. [Sleep 1, Request 1, Request 2]
      = Sleep (retry_delay (MetadataExtractor_init None) * 2 ^ 0) # Request (Suc 0) # rest) \<and>
   session_get flaky (crossref_url ''10.1000/x'') 1 = Response 500 [] \<and>
   (\<exists>rest. [Request 2] = Request (Suc 1) # rest) \<and>
   session_get flaky (crossref_url ''10.1000/x'') 2 = Response 404 [] \<and>
   snd (get_metadata_from_crossref (MetadataExtractor_init None) flaky ''10.1000/x'' {}) = None"
proof -
  let ?run = "get_metadata_from_crossref (MetadataExtractor_init None) flaky ''10.1000/x'' {}"
  have cfg: "max_retries (MetadataExtractor_init None) = 3"
    "retry_delay (MetadataExtractor_init None) = 1"
    by (simp_all add: MetadataExtractor_init_def)
  have g0: "session_get flaky (crossref_url ''10.1000/x'') 0 = RequestException"
    and g1: "session_get flaky (crossref_url ''10.1000/x'') 1 = Response 500 []"
    and g2: "session_get flaky (crossref_url ''10.1000/x'') 2 = Response 404 []"
    by (simp_all add: flaky_def)
  have up: "[0..<3::nat] = [0, 1, 2]" by (simp add: upt_rec)
  have log: "fst ?run = [Request 0, Sleep 1, Request 1, Request 2]"
    using g0 g1 g2
    by (simp add: get_metadata_from_crossref_def cfg up then_events_def)
  note p = crossref_retry_policy[of "MetadataExtractor_init None" flaky "''10.1000/x''" "{}" None]
  have n: "length (filter is_request (fst ?run)) \<le> 3"
    using p[THEN conjunct1] by (simp add: cfg)
  have s0: "suffix (Request 0 # [Sleep 1, Request 1, Request 2]) (fst ?run) \<and>
            session_get flaky (crossref_url ''10.1000/x'') 0 = RequestException \<and>
            int 0 < max_retries (MetadataExtractor_init None) - 1"
    using g0 by (simp add: log cfg)
  note b = p[THEN conjunct2, THEN conjunct2, THEN conjunct2, THEN conjunct1, rule_format, OF s0]
  have s1: "suffix (Request 1 # [Request 2]) (fst ?run) \<and>
            session_get flaky (crossref_url ''10.1000/x'') 1 = Response 500 [] \<and>
            (500::nat) \<noteq> 200 \<and> (500::nat) \<noteq> 404 \<and>
            int (Suc 1) < max_retries (MetadataExtractor_init None)"
    using g1 by (simp add: log cfg suffix_def)
  note o = p[THEN conjunct2, THEN conjunct2, THEN conjunct2, THEN conjunct2, rule_format, OF s1]
  have s2: "suffix (Request 2 # []) (fst ?run) \<and>
            session_get flaky (crossref_url ''10.1000/x'') 2 = Response 404 []"
    using g2 by (simp add: log suffix_def)
  note f = p[THEN conjunct2, THEN conjunct2, THEN conjunct1, rule_format, OF s2, THEN conjunct2]
  from log n g0 b g1 o g2 f show ?thesis by (intro conjI)
qed


section \<open>The orchestrator: order and short-circuit\<close>























end
